theory Spec2Isabelle
  imports Complex_Main "HOL-Library.AList"
begin

section \<open>Python values shared by the models\<close>

text \<open>
  Python's truthiness of an \<open>Optional[str]\<close>: \<open>None\<close> and the empty string are
  falsy, every other string is truthy.
\<close>

definition truthy_opt_str :: "string option \<Rightarrow> bool" where
  "truthy_opt_str s = (case s of None \<Rightarrow> False | Some t \<Rightarrow> t \<noteq> [])"

text \<open>\<open>str\<close> of a Python integer: its decimal digits, with a minus sign when negative.\<close>

definition digit_char :: "nat \<Rightarrow> char" where
  "digit_char n = ''0123456789'' ! (n mod 10)"

function str_of_nat :: "nat \<Rightarrow> string" where
  "str_of_nat n = (if n < 10 then [digit_char n] else str_of_nat (n div 10) @ [digit_char n])"
  by pat_completeness auto
termination
  by (relation "measure id") auto

declare str_of_nat.simps [simp del]

definition str_of_int :: "int \<Rightarrow> string" where
  "str_of_int i = (if i < 0 then CHR ''-'' # str_of_nat (nat (- i)) else str_of_nat (nat i))"

text \<open>
  The exceptions the modelled code raises or lets pass. \<open>ForgeError\<close> stands for
  \<open>ForgeError\<close> and its alias subclass \<open>GiteaError\<close>, \<open>ForgeAuthError\<close> for
  \<open>ForgeAuthError\<close> and \<open>GiteaAuthError\<close>; \<open>OtherError\<close> is any other subclass of
  \<open>Exception\<close>.
\<close>

datatype py_exn =
    ForgeError string
  | ForgeAuthError string
  | TimeoutError string
  | TunnelNotAvailableError string
  | JSONDecodeError
  | OtherError string

text \<open>Decoded JSON (numbers are integers here).\<close>

datatype json =
    JNull
  | JBool bool
  | JInt int
  | JStr string
  | JList "json list"
  | JDict "(string \<times> json) list"

text \<open>
  The scalar values of decoded JSON that run records and workflow inputs hold, with
  Python's \<open>str\<close> and truthiness on them.
\<close>

datatype pyval = PNone | PBool bool | PInt int | PStr string

fun py_str :: "pyval \<Rightarrow> string" where
  "py_str PNone = ''None''"
| "py_str (PBool b) = (if b then ''True'' else ''False'')"
| "py_str (PInt i) = str_of_int i"
| "py_str (PStr s) = s"

fun py_truthy :: "pyval \<Rightarrow> bool" where
  "py_truthy PNone = False"
| "py_truthy (PBool b) = b"
| "py_truthy (PInt i) = (i \<noteq> 0)"
| "py_truthy (PStr s) = (s \<noteq> [])"

text \<open>\<open>d.get(key)\<close> and \<open>d.get(key, default)\<close> on a field that may be missing.\<close>

definition dict_get :: "pyval option \<Rightarrow> pyval" where
  "dict_get f = (case f of None \<Rightarrow> PNone | Some v \<Rightarrow> v)"

definition dict_get_default :: "pyval option \<Rightarrow> pyval \<Rightarrow> pyval" where
  "dict_get_default f d = (case f of None \<Rightarrow> d | Some v \<Rightarrow> v)"


section \<open>Bridge profiles and the tunnel configuration (cli/utils/tunnel.py)\<close>

text \<open>
  \<open>BridgeProfile\<close> and \<open>TunnelConfig\<close> are dataclasses. The \<open>bridges\<close> dict is an
  association list in insertion order, since \<open>remove_bridge\<close> and \<open>get_bridge\<close> read
  its first entry (\<open>next(iter(...))\<close>): assigning an existing key keeps its place,
  a new key goes last, as \<open>AList.update\<close> does.
\<close>

record BridgeProfile =
  name :: string
  proxy_url :: string
  ssh_user :: string
  ssh_port :: int

text \<open>The dataclass constructor with its defaults (\<open>DEFAULT_SSH_USER\<close>, \<open>DEFAULT_SSH_PORT\<close>).\<close>

definition BridgeProfile_init :: "string \<Rightarrow> string \<Rightarrow> BridgeProfile" where
  "BridgeProfile_init nm url =
     \<lparr>name = nm, proxy_url = url, ssh_user = ''root'', ssh_port = 22222\<rparr>"

record TunnelConfig =
  bridges :: "(string \<times> BridgeProfile) list"
  default_bridge :: "string option"
  config_dir :: string

definition TunnelConfig_init :: "string \<Rightarrow> TunnelConfig" where
  "TunnelConfig_init d = \<lparr>bridges = [], default_bridge = None, config_dir = d\<rparr>"

definition get_bridge :: "TunnelConfig \<Rightarrow> string option \<Rightarrow> BridgeProfile option" where
  "get_bridge c nm =
     (if truthy_opt_str nm then map_of (bridges c) (the nm)
      else if truthy_opt_str (default_bridge c) then map_of (bridges c) (the (default_bridge c))
      else if length (bridges c) = 1 then Some (snd (hd (bridges c)))
      else None)"

definition add_bridge :: "TunnelConfig \<Rightarrow> BridgeProfile \<Rightarrow> TunnelConfig" where
  "add_bridge c p =
     c\<lparr>bridges := AList.update (name p) p (bridges c),
       default_bridge := (if default_bridge c = None then Some (name p) else default_bridge c)\<rparr>"

definition first_key :: "(string \<times> BridgeProfile) list \<Rightarrow> string option" where
  "first_key bs = (case bs of [] \<Rightarrow> None | kv # _ \<Rightarrow> Some (fst kv))"

definition remove_bridge :: "TunnelConfig \<Rightarrow> string \<Rightarrow> TunnelConfig \<times> bool" where
  "remove_bridge c nm =
     (if nm \<in> fst ` set (bridges c) then
        (let bs = AList.delete nm (bridges c) in
         (c\<lparr>bridges := bs,
            default_bridge := (if default_bridge c = Some nm then first_key bs
                               else default_bridge c)\<rparr>, True))
      else (c, False))"

datatype bridge_op = AddBridge BridgeProfile | RemoveBridge string

fun apply_bridge_op :: "TunnelConfig \<Rightarrow> bridge_op \<Rightarrow> TunnelConfig" where
  "apply_bridge_op c (AddBridge p) = add_bridge c p"
| "apply_bridge_op c (RemoveBridge nm) = fst (remove_bridge c nm)"

definition run_bridge_ops :: "bridge_op list \<Rightarrow> TunnelConfig \<Rightarrow> TunnelConfig" where
  "run_bridge_ops ops c = foldl apply_bridge_op c ops"

text \<open>The names of the profiles a sequence of operations adds.\<close>

fun added_names :: "bridge_op list \<Rightarrow> string list" where
  "added_names [] = []"
| "added_names (AddBridge p # ops) = name p # added_names ops"
| "added_names (RemoveBridge nm # ops) = added_names ops"

definition default_inv :: "TunnelConfig \<Rightarrow> bool" where
  "default_inv c =
     ((default_bridge c = None \<longleftrightarrow> bridges c = []) \<and>
      (case default_bridge c of None \<Rightarrow> True | Some d \<Rightarrow> d \<in> fst ` set (bridges c)))"

section \<open>The ProxyCommand string (cli/utils/tunnel.py)\<close>

text \<open>
  \<open>shlex.quote\<close> of the standard library: the empty string becomes two single quotes,
  a string of safe characters (\<open>[A-Za-z0-9_@%+=:,./-]\<close>) is returned as it is, and any
  other string is put in single quotes with each single quote inside replaced by
  \<open>'"'"'\<close>. Characters are bytes here; every byte outside ASCII is unsafe.
\<close>

definition shlex_safe_char :: "char \<Rightarrow> bool" where
  "shlex_safe_char c =
     (c \<in> set ''abcdefghijklmnopqrstuvwxyzABCDEFGHIJKLMNOPQRSTUVWXYZ0123456789_@%+=:,./-'')"

definition shlex_quote :: "string \<Rightarrow> string" where
  "shlex_quote s =
     (if s = [] then [CHR 0x27, CHR 0x27]
      else if list_all shlex_safe_char s then s
      else [CHR 0x27]
           @ concat (map (\<lambda>c. if c = CHR 0x27
                                 then [CHR 0x27, CHR 0x22, CHR 0x27, CHR 0x22, CHR 0x27]
                                 else [c]) s)
           @ [CHR 0x27])"

text \<open>\<open>str.startswith\<close>.\<close>

definition startswith :: "string \<Rightarrow> string \<Rightarrow> bool" where
  "startswith s p = (take (length p) s = p)"

text \<open>The websocket URL computed at the head of \<open>_get_proxy_command\<close>.\<close>

definition ws_url_of :: "string \<Rightarrow> string" where
  "ws_url_of url =
     (if startswith url ''https://'' then ''wss://'' @ drop 8 url
      else if startswith url ''http://'' then ''ws://'' @ drop 7 url
      else url)"

definition get_proxy_command :: "BridgeProfile \<Rightarrow> string \<Rightarrow> bool \<Rightarrow> string" where
  "get_proxy_command bridge rtunnel_bin quiet =
     (let ws_url = ws_url_of (proxy_url bridge) in
      if quiet then
        (let cmd = rtunnel_bin @ '' '' @ shlex_quote ws_url @ '' stdio://%h:%p 2>/dev/null''
         in ''sh -c '' @ shlex_quote cmd)
      else shlex_quote rtunnel_bin @ '' '' @ shlex_quote ws_url @ '' ''
           @ shlex_quote ''stdio://%h:%p'')"

section \<open>The forge client's requests (cli/utils/forge.py, \<open>ForgeClient.request_json\<close>)\<close>

text \<open>
  What \<open>urlopen\<close> does at one attempt. A response that is not an error carries its
  body: empty, a JSON document, or text that \<open>json.loads\<close> rejects. An
  \<open>HTTPError\<close> carries its status code and the \<open>message\<close> or \<open>error\<close> text that
  the handler extracts from its body (\<open>None\<close> when the body has neither or does not
  decode). A \<open>URLError\<close> carries its text.
\<close>

datatype http_body = EmptyBody | JsonBody json | MalformedBody

datatype http_outcome =
    HttpOk http_body
  | HttpError int "string option"
  | UrlError string

datatype http_event = Request nat | Sleep real

definition max_retries :: nat where
  "max_retries = 3"

definition retry_delay :: real where
  "retry_delay = 2"

definition api_error_msg :: "int \<Rightarrow> string \<Rightarrow> string option \<Rightarrow> string" where
  "api_error_msg code url detail =
     ''API error '' @ str_of_int code @ '' for '' @ url
       @ (if truthy_opt_str detail then '': '' @ the detail else [])"

text \<open>
  The loop \<open>for attempt in range(max_retries + 1)\<close> from attempt \<open>attempt\<close> on, with
  \<open>k\<close> iterations left. The result comes with the requests made and the sleeps slept,
  in order. \<open>urlopen\<close> gives the outcome of each attempt.
\<close>

fun request_json_from ::
  "(nat \<Rightarrow> http_outcome) \<Rightarrow> string \<Rightarrow> nat \<Rightarrow> nat \<Rightarrow> (py_exn + json) \<times> http_event list" where
  "request_json_from urlopen url attempt 0 = (Inr (JDict []), [])"
| "request_json_from urlopen url attempt (Suc k) =
     (case urlopen attempt of
        HttpOk body \<Rightarrow>
          (case body of
             EmptyBody \<Rightarrow> (Inr (JDict []), [Request attempt])
           | JsonBody j \<Rightarrow> (Inr j, [Request attempt])
           | MalformedBody \<Rightarrow> (Inl JSONDecodeError, [Request attempt]))
      | HttpError code detail \<Rightarrow>
          if code \<ge> 500 \<and> attempt < max_retries then
            (let (r, evs) = request_json_from urlopen url (Suc attempt) k
             in (r, Request attempt # Sleep retry_delay # evs))
          else (Inl (ForgeError (api_error_msg code url detail)), [Request attempt])
      | UrlError e \<Rightarrow>
          if attempt < max_retries then
            (let (r, evs) = request_json_from urlopen url (Suc attempt) k
             in (r, Request attempt # Sleep retry_delay # evs))
          else (Inl (ForgeError (''API request failed for '' @ url @ '': '' @ e)),
                [Request attempt]))"




section \<open>Workflow runs and the configuration (cli/utils/forge.py, cli/utils/config.py)\<close>

text \<open>
  The \<open>event_payload\<close> string of a run, by what \<open>_parse_event_inputs\<close> can make of it:
  missing or empty; text that \<open>json.loads\<close> rejects; or a JSON object, of which only
  the \<open>inputs\<close> entry is read (absent, a dict of scalars, or another value).
\<close>

datatype event_inputs = NoInputs | InputsDict "(string \<times> pyval) list" | InputsOther pyval

datatype payload = PayloadEmpty | PayloadInvalid | PayloadObject event_inputs

text \<open>A run as the runs API returns it: the entries the code reads, each possibly missing.\<close>

record workflow_run =
  run_id :: "pyval option"
  status :: "pyval option"
  conclusion :: "pyval option"
  html_url :: "pyval option"
  event_payload :: payload




section \<open>Waiting for a workflow run (cli/utils/forge.py, \<open>wait_for_workflow_completion\<close>)\<close>

record completion =
  c_status :: pyval
  c_conclusion :: pyval
  c_run_id :: string
  c_html_url :: pyval

definition is_terminal :: "workflow_run \<Rightarrow> bool" where
  "is_terminal run =
     (dict_get (status run) \<in> {PStr ''completed'', PStr ''success'', PStr ''failure''})"

definition completion_of :: "string \<Rightarrow> workflow_run \<Rightarrow> completion" where
  "completion_of rid run =
     \<lparr>c_status = dict_get (status run),
      c_conclusion = (if py_truthy (dict_get (conclusion run)) then dict_get (conclusion run)
                      else dict_get (status run)),
      c_run_id = rid,
      c_html_url = dict_get_default (html_url run) (PStr [])\<rparr>"

definition workflow_timeout_msg :: "int \<Rightarrow> string" where
  "workflow_timeout_msg t =
     ''Workflow timed out after '' @ str_of_int t @ '' seconds.'' @ [CHR 0x0A]
       @ ''To increase the timeout, set: export INSP_REMOTE_TIMEOUT=<seconds>''"

text \<open>
  One turn of the \<open>while True\<close> loop takes one tick of the environment: the reading of
  \<open>time.time()\<close> at the top of the loop, and what \<open>get_workflow_run\<close> answers if it is
  called. The loop gives its result with the number of calls of \<open>get_workflow_run\<close> it
  made; \<open>None\<close> means the ticks ran out with the loop still going.
\<close>

type_synonym tick = "real \<times> (py_exn + workflow_run)"

fun wait_loop :: "real \<Rightarrow> string \<Rightarrow> int \<Rightarrow> tick list \<Rightarrow> ((py_exn + completion) \<times> nat) option" where
  "wait_loop deadline rid t [] = None"
| "wait_loop deadline rid t ((now, poll) # rest) =
     (if now > deadline then Some (Inl (TimeoutError (workflow_timeout_msg t)), 0)
      else case poll of
        Inl e \<Rightarrow> Some (Inl e, 1)
      | Inr run \<Rightarrow>
          if is_terminal run then Some (Inr (completion_of rid run), 1)
          else map_option (\<lambda>(r, n). (r, Suc n)) (wait_loop deadline rid t rest))"






section \<open>Run correlation (cli/utils/forge.py)\<close>

text \<open>
  The response of the runs endpoint: the run list and the three entries that
  \<open>_extract_total_count\<close> reads. The counts are JSON numbers here.
\<close>

record runs_response =
  workflow_runs :: "workflow_run list option"
  resp_total_count :: "int option"
  resp_total :: "int option"
  resp_count :: "int option"

text \<open>\<open>a or b\<close> on optional integers: \<open>a\<close> when it is neither \<open>None\<close> nor zero.\<close>

definition opt_or :: "int option \<Rightarrow> int option \<Rightarrow> int option" where
  "opt_or a b = (case a of None \<Rightarrow> b | Some n \<Rightarrow> if n \<noteq> 0 then a else b)"

definition extract_total_count :: "runs_response \<Rightarrow> int option" where
  "extract_total_count response =
     opt_or (resp_total_count response) (opt_or (resp_total response) (resp_count response))"

definition parse_event_inputs :: "workflow_run \<Rightarrow> (string \<times> pyval) list" where
  "parse_event_inputs run =
     (case event_payload run of
        PayloadEmpty \<Rightarrow> []
      | PayloadInvalid \<Rightarrow> []
      | PayloadObject ei \<Rightarrow>
          (case ei of NoInputs \<Rightarrow> [] | InputsDict d \<Rightarrow> d | InputsOther v \<Rightarrow> []))"

text \<open>\<open>inputs.get(key, "")\<close>.\<close>

definition input_value :: "(string \<times> pyval) list \<Rightarrow> string \<Rightarrow> pyval" where
  "input_value inputs k = (case map_of inputs k of None \<Rightarrow> PStr [] | Some v \<Rightarrow> v)"

fun matches_inputs :: "(string \<times> pyval) list \<Rightarrow> (string \<times> pyval) list \<Rightarrow> bool" where
  "matches_inputs inputs [] = True"
| "matches_inputs inputs ((k, v) # expected) =
     (if \<not> py_truthy v then matches_inputs inputs expected
      else if py_str (input_value inputs k) \<noteq> py_str v then False
      else matches_inputs inputs expected)"

fun find_run_by_inputs :: "workflow_run list \<Rightarrow> (string \<times> pyval) list \<Rightarrow> workflow_run option" where
  "find_run_by_inputs [] expected = None"
| "find_run_by_inputs (run # runs) expected =
     (let inputs = parse_event_inputs run in
      if inputs = [] then find_run_by_inputs runs expected
      else if matches_inputs inputs expected then Some run
      else find_run_by_inputs runs expected)"

text \<open>\<open>response.get("workflow_runs", []) or []\<close> and \<open>str(run.get("id", ""))\<close>.\<close>

definition runs_of :: "runs_response \<Rightarrow> workflow_run list" where
  "runs_of response = (case workflow_runs response of None \<Rightarrow> [] | Some rs \<Rightarrow> rs)"

definition run_id_str :: "workflow_run \<Rightarrow> string" where
  "run_id_str run = py_str (dict_get_default (run_id run) (PStr []))"

definition limit :: int where
  "limit = 20"

text \<open>
  One turn of \<open>for _ in range(3)\<close> in \<open>trigger_sync_workflow\<close>, up to the
  \<open>time.sleep(1)\<close>. \<open>get\<close> answers \<open>request_json\<close> for a page of the runs list. The
  turn returns from the function with an id, ends with nothing found (also when a request
  raised \<open>ForgeError\<close>, which the turn swallows), or lets another exception pass. It
  comes with the pages it requested, in order.
\<close>

datatype round_outcome = Found string | NotFound | Raised py_exn

definition swallow_forge_error :: "py_exn \<Rightarrow> round_outcome" where
  "swallow_forge_error e = (case e of ForgeError m \<Rightarrow> NotFound | _ \<Rightarrow> Raised e)"

definition sync_round ::
  "(int \<Rightarrow> py_exn + runs_response) \<Rightarrow> (string \<times> pyval) list \<Rightarrow> round_outcome \<times> int list" where
  "sync_round get expected =
     (case get 1 of
        Inl e \<Rightarrow> (swallow_forge_error e, [1])
      | Inr response \<Rightarrow>
          (case find_run_by_inputs (runs_of response) expected of
             Some run \<Rightarrow> (Found (run_id_str run), [1])
           | None \<Rightarrow>
               (case extract_total_count response of
                  None \<Rightarrow> (NotFound, [1])
                | Some n \<Rightarrow>
                    if n \<noteq> 0 \<and> n > limit then
                      (let last_page = (n + limit - 1) div limit in
                       case get last_page of
                         Inl e \<Rightarrow> (swallow_forge_error e, [1, last_page])
                       | Inr response2 \<Rightarrow>
                           (case find_run_by_inputs (runs_of response2) expected of
                              Some run \<Rightarrow> (Found (run_id_str run), [1, last_page])
                            | None \<Rightarrow> (NotFound, [1, last_page])))
                    else (NotFound, [1]))))"




text \<open>What the claim calls a match: every non-empty expected value equals the run's, as strings.\<close>

definition inputs_agree :: "(string \<times> pyval) list \<Rightarrow> (string \<times> pyval) list \<Rightarrow> bool" where
  "inputs_agree inputs expected =
     (\<forall>(k, v) \<in> set expected. py_truthy v \<longrightarrow> py_str (input_value inputs k) = py_str v)"



section \<open>Properties of the tunnel configuration\<close>

lemma default_inv_init: "default_inv (TunnelConfig_init d)"
  by (simp add: default_inv_def TunnelConfig_init_def)

lemma default_inv_add: "default_inv c \<Longrightarrow> default_inv (add_bridge c p)"
  by (auto simp: default_inv_def add_bridge_def dom_update split: option.splits)

lemma first_key_mem: "first_key bs = Some k \<Longrightarrow> k \<in> fst ` set bs"
  by (cases bs) (auto simp: first_key_def)

lemma first_key_None: "first_key bs = None \<longleftrightarrow> bs = []"
  by (cases bs) (auto simp: first_key_def)

lemma delete_keys: "fst ` set (AList.delete k bs) = fst ` set bs - {k}"
  by (induction bs) (auto simp: AList.delete_eq)

lemma default_inv_remove: "default_inv c \<Longrightarrow> default_inv (fst (remove_bridge c nm))"
proof -
  assume inv: "default_inv c"
  show ?thesis
  proof (cases "nm \<in> fst ` set (bridges c)")
    case False
    then show ?thesis using inv by (simp add: remove_bridge_def)
  next
    case True
    let ?bs = "AList.delete nm (bridges c)"
    show ?thesis
    proof (cases "default_bridge c = Some nm")
      case True
      have "default_inv (c\<lparr>bridges := ?bs, default_bridge := first_key ?bs\<rparr>)"
        by (auto simp: default_inv_def first_key_None dest: first_key_mem split: option.splits)
      then show ?thesis using True \<open>nm \<in> fst ` set (bridges c)\<close>
        by (simp add: remove_bridge_def Let_def)
    next
      case False
      obtain d where d: "default_bridge c = Some d" "d \<noteq> nm" "d \<in> fst ` set (bridges c)"
        using inv True False by (auto simp: default_inv_def split: option.splits)
      then have "d \<in> fst ` set ?bs" by (simp add: delete_keys)
      then have "default_inv (c\<lparr>bridges := ?bs\<rparr>)"
        using d by (auto simp: default_inv_def)
      then show ?thesis using False True
        by (simp add: remove_bridge_def Let_def)
    qed
  qed
qed

lemma default_inv_foldl: "default_inv c \<Longrightarrow> default_inv (foldl apply_bridge_op c ops)"
proof (induction ops arbitrary: c)
  case Nil
  then show ?case by simp
next
  case (Cons x ops)
  have "default_inv (apply_bridge_op c x)"
    using Cons.prems by (cases x) (simp_all add: default_inv_add default_inv_remove)
  then show ?case using Cons.IH by simp
qed

lemma keys_foldl:
  "fst ` set (bridges (foldl apply_bridge_op c ops)) \<subseteq> fst ` set (bridges c) \<union> set (added_names ops)"
proof (induction ops arbitrary: c)
  case Nil
  then show ?case by simp
next
  case (Cons x ops)
  have step: "fst ` set (bridges (apply_bridge_op c x)) \<subseteq>
      fst ` set (bridges c) \<union> set (added_names [x])"
  proof (cases x)
    case (AddBridge p)
    then show ?thesis by (simp add: add_bridge_def dom_update)
  next
    case (RemoveBridge nm)
    then show ?thesis by (auto simp: remove_bridge_def Let_def delete_keys)
  qed
  have "added_names (x # ops) = added_names [x] @ added_names ops"
    by (cases x) simp_all
  then show ?case using Cons.IH [of "apply_bridge_op c x"] step by auto
qed

lemma get_bridge_default:
  assumes "default_inv c" and "bridges c \<noteq> []" and "[] \<notin> fst ` set (bridges c)"
  shows "get_bridge c None \<noteq> None"
proof -
  obtain d where d: "default_bridge c = Some d" "d \<in> fst ` set (bridges c)"
    using assms(1,2) by (auto simp: default_inv_def split: option.splits)
  have "d \<noteq> []" using d(2) assms(3) by blast
  moreover have "map_of (bridges c) d \<noteq> None"
    using d(2) by (simp add: map_of_eq_None_iff)
  ultimately show ?thesis using d(1) by (simp add: get_bridge_def truthy_opt_str_def)
qed

text \<open>
  C10 (as amended). Starting from an empty \<open>TunnelConfig\<close>, after any sequence of
  \<open>add_bridge\<close> and \<open>remove_bridge\<close> operations \<open>default_bridge\<close> is \<open>None\<close> exactly
  when \<open>bridges\<close> is empty, and otherwise names a profile present in \<open>bridges\<close>.
  When every added profile has a non-empty name (what \<open>inspire tunnel add\<close> validates),
  \<open>get_bridge(None)\<close> returns a profile whenever at least one bridge exists.
\<close>

theorem tunnel_config_default_invariant:
  "(default_bridge (run_bridge_ops ops (TunnelConfig_init d)) = None
      \<longleftrightarrow> bridges (run_bridge_ops ops (TunnelConfig_init d)) = []) \<and>
   (\<forall>k. default_bridge (run_bridge_ops ops (TunnelConfig_init d)) = Some k
      \<longrightarrow> map_of (bridges (run_bridge_ops ops (TunnelConfig_init d))) k \<noteq> None) \<and>
   ([] \<notin> set (added_names ops) \<and> bridges (run_bridge_ops ops (TunnelConfig_init d)) \<noteq> []
      \<longrightarrow> get_bridge (run_bridge_ops ops (TunnelConfig_init d)) None \<noteq> None)"
proof -
  let ?c = "run_bridge_ops ops (TunnelConfig_init d)"
  have inv: "default_inv ?c"
    unfolding run_bridge_ops_def by (rule default_inv_foldl) (rule default_inv_init)
  have keys: "fst ` set (bridges ?c) \<subseteq> set (added_names ops)"
    using keys_foldl [of "TunnelConfig_init d" ops]
    by (simp add: run_bridge_ops_def TunnelConfig_init_def)
  have a: "default_bridge ?c = None \<longleftrightarrow> bridges ?c = []"
    using inv by (simp add: default_inv_def)
  have b: "\<forall>k. default_bridge ?c = Some k \<longrightarrow> map_of (bridges ?c) k \<noteq> None"
    using inv by (auto simp: default_inv_def map_of_eq_None_iff)
  have c: "[] \<notin> set (added_names ops) \<and> bridges ?c \<noteq> [] \<longrightarrow> get_bridge ?c None \<noteq> None"
    using get_bridge_default [OF inv] keys by blast
  from a b c show ?thesis by blast
qed

theorem tunnel_config_default_invariant_witness:
  "[] \<notin> set (added_names
       [AddBridge (BridgeProfile_init ''a'' ''https://p1.example.com''),
        AddBridge (BridgeProfile_init ''b'' ''https://p2.example.com''),
        RemoveBridge ''a'']) \<and>
   default_bridge (run_bridge_ops
       [AddBridge (BridgeProfile_init ''a'' ''https://p1.example.com''),
        AddBridge (BridgeProfile_init ''b'' ''https://p2.example.com''),
        RemoveBridge ''a''] (TunnelConfig_init ''~/.inspire'')) = Some ''b'' \<and>
   map_of (bridges (run_bridge_ops
       [AddBridge (BridgeProfile_init ''a'' ''https://p1.example.com''),
        AddBridge (BridgeProfile_init ''b'' ''https://p2.example.com''),
        RemoveBridge ''a''] (TunnelConfig_init ''~/.inspire''))) ''b'' \<noteq> None \<and>
   bridges (run_bridge_ops
       [AddBridge (BridgeProfile_init ''a'' ''https://p1.example.com''),
        AddBridge (BridgeProfile_init ''b'' ''https://p2.example.com''),
        RemoveBridge ''a''] (TunnelConfig_init ''~/.inspire'')) \<noteq> [] \<and>
   get_bridge (run_bridge_ops
       [AddBridge (BridgeProfile_init ''a'' ''https://p1.example.com''),
        AddBridge (BridgeProfile_init ''b'' ''https://p2.example.com''),
        RemoveBridge ''a''] (TunnelConfig_init ''~/.inspire'')) None \<noteq> None"
  using tunnel_config_default_invariant
    [of "[AddBridge (BridgeProfile_init ''a'' ''https://p1.example.com''),
          AddBridge (BridgeProfile_init ''b'' ''https://p2.example.com''),
          RemoveBridge ''a'']" "''~/.inspire''"]
  by (simp add: run_bridge_ops_def TunnelConfig_init_def BridgeProfile_init_def
      add_bridge_def remove_bridge_def first_key_def AList.delete_eq Let_def)

text \<open>
  The claim as stated fails when a profile with the empty name becomes the default:
  \<open>get_bridge\<close> tests \<open>default_bridge\<close> for truthiness, the empty name is falsy,
  and with two bridges the single-bridge fallback does not apply.
\<close>

theorem get_bridge_empty_name_counterexample:
  "bridges (run_bridge_ops
       [AddBridge (BridgeProfile_init [] ''https://p1.example.com''),
        AddBridge (BridgeProfile_init ''b'' ''https://p2.example.com'')]
       (TunnelConfig_init ''~/.inspire'')) \<noteq> [] \<and>
   default_bridge (run_bridge_ops
       [AddBridge (BridgeProfile_init [] ''https://p1.example.com''),
        AddBridge (BridgeProfile_init ''b'' ''https://p2.example.com'')]
       (TunnelConfig_init ''~/.inspire'')) = Some [] \<and>
   get_bridge (run_bridge_ops
       [AddBridge (BridgeProfile_init [] ''https://p1.example.com''),
        AddBridge (BridgeProfile_init ''b'' ''https://p2.example.com'')]
       (TunnelConfig_init ''~/.inspire'')) None = None"
  by (simp add: run_bridge_ops_def TunnelConfig_init_def BridgeProfile_init_def
      add_bridge_def get_bridge_def truthy_opt_str_def)

section \<open>Properties of the ProxyCommand string\<close>

lemma shlex_quote_safe: "s \<noteq> [] \<Longrightarrow> list_all shlex_safe_char s \<Longrightarrow> shlex_quote s = s"
  by (simp add: shlex_quote_def)

lemma shlex_quote_stdio: "shlex_quote ''stdio://%h:%p'' = ''stdio://%h:%p''"
  by (simp add: shlex_quote_def shlex_safe_char_def)

lemma shlex_quote_unsafe:
  "\<not> list_all shlex_safe_char s \<Longrightarrow>
   shlex_quote s = [CHR 0x27]
           @ concat (map (\<lambda>c. if c = CHR 0x27
                                 then [CHR 0x27, CHR 0x22, CHR 0x27, CHR 0x22, CHR 0x27]
                                 else [c]) s)
           @ [CHR 0x27]"
  by (auto simp: shlex_quote_def)

lemma ws_url_https: "ws_url_of (''https://'' @ r) = ''wss://'' @ r"
  by (simp add: ws_url_of_def startswith_def)

lemma ws_url_http: "ws_url_of (''http://'' @ r) = ''ws://'' @ r"
  by (simp add: ws_url_of_def startswith_def)

lemma ws_url_other:
  "\<not> startswith u ''https://'' \<Longrightarrow> \<not> startswith u ''http://'' \<Longrightarrow> ws_url_of u = u"
  by (simp add: ws_url_of_def)

lemma quiet_cmd_unsafe:
  "\<not> list_all shlex_safe_char (b @ '' '' @ q @ '' stdio://%h:%p 2>/dev/null'')"
  by (simp add: shlex_safe_char_def)

lemma escape_no_quote:
  "CHR 0x27 \<notin> set s \<Longrightarrow>
   concat (map (\<lambda>c. if c = CHR 0x27
                       then [CHR 0x27, CHR 0x22, CHR 0x27, CHR 0x22, CHR 0x27]
                       else [c]) s) = s"
  by (induction s) auto

lemma safe_no_quote: "list_all shlex_safe_char s \<Longrightarrow> CHR 0x27 \<notin> set s"
  by (induction s) (auto simp: shlex_safe_char_def)

lemma get_proxy_command_loud:
  "get_proxy_command b bin False =
     shlex_quote bin @ '' '' @ shlex_quote (ws_url_of (proxy_url b)) @ '' stdio://%h:%p''"
  by (simp add: get_proxy_command_def shlex_quote_stdio)

lemma get_proxy_command_quiet:
  "get_proxy_command b bin True =
     ''sh -c '' @ shlex_quote (bin @ '' '' @ shlex_quote (ws_url_of (proxy_url b))
                                @ '' stdio://%h:%p 2>/dev/null'')"
  by (simp add: get_proxy_command_def)

lemma get_proxy_command_quiet_safe:
  assumes "bin \<noteq> []" "list_all shlex_safe_char bin"
    and "ws_url_of (proxy_url b) \<noteq> []" "list_all shlex_safe_char (ws_url_of (proxy_url b))"
  shows "get_proxy_command b bin True =
     ''sh -c '' @ [CHR 0x27] @ bin @ '' '' @ ws_url_of (proxy_url b)
       @ '' stdio://%h:%p 2>/dev/null'' @ [CHR 0x27]"
proof -
  let ?ws = "ws_url_of (proxy_url b)"
  let ?cmd = "bin @ '' '' @ ?ws @ '' stdio://%h:%p 2>/dev/null''"
  have q: "shlex_quote ?ws = ?ws" using assms(3,4) by (rule shlex_quote_safe)
  have nq: "CHR 0x27 \<notin> set ?cmd"
    using safe_no_quote [OF assms(2)] safe_no_quote [OF assms(4)] by simp
  have "shlex_quote ?cmd = [CHR 0x27] @ ?cmd @ [CHR 0x27]"
    using shlex_quote_unsafe [OF quiet_cmd_unsafe [of bin ?ws]] escape_no_quote [OF nq]
    by simp
  then show ?thesis using q by (simp add: get_proxy_command_quiet)
qed

text \<open>
  C8. \<open>_get_proxy_command\<close> rewrites a proxy URL beginning with \<open>https://\<close> to one
  beginning with \<open>wss://\<close>, one beginning with \<open>http://\<close> to \<open>ws://\<close>, and leaves any
  other URL unchanged. The command it returns is \<open><bin> <ws-url> stdio://%h:%p\<close>, each
  word passed through \<open>shlex.quote\<close> (the identity on words of shell-safe characters);
  with \<open>quiet=True\<close> the command, followed by \<open>2>/dev/null\<close>, is the quoted argument of
  \<open>sh -c\<close>.
\<close>

theorem get_proxy_command_shape:
  "ws_url_of (''https://'' @ r) = ''wss://'' @ r \<and>
   ws_url_of (''http://'' @ r) = ''ws://'' @ r \<and>
   (\<not> startswith u ''https://'' \<and> \<not> startswith u ''http://'' \<longrightarrow> ws_url_of u = u) \<and>
   get_proxy_command b bin False =
     shlex_quote bin @ '' '' @ shlex_quote (ws_url_of (proxy_url b)) @ '' stdio://%h:%p'' \<and>
   get_proxy_command b bin True =
     ''sh -c '' @ shlex_quote (bin @ '' '' @ shlex_quote (ws_url_of (proxy_url b))
                                @ '' stdio://%h:%p 2>/dev/null'') \<and>
   (bin \<noteq> [] \<and> list_all shlex_safe_char bin \<and> ws_url_of (proxy_url b) \<noteq> [] \<and>
    list_all shlex_safe_char (ws_url_of (proxy_url b)) \<longrightarrow>
      get_proxy_command b bin False =
        bin @ '' '' @ ws_url_of (proxy_url b) @ '' stdio://%h:%p'' \<and>
      get_proxy_command b bin True =
        ''sh -c '' @ [CHR 0x27] @ bin @ '' '' @ ws_url_of (proxy_url b)
          @ '' stdio://%h:%p 2>/dev/null'' @ [CHR 0x27])"
proof -
  have safe: "get_proxy_command b bin False =
        bin @ '' '' @ ws_url_of (proxy_url b) @ '' stdio://%h:%p''"
    if "bin \<noteq> []" "list_all shlex_safe_char bin" "ws_url_of (proxy_url b) \<noteq> []"
       "list_all shlex_safe_char (ws_url_of (proxy_url b))"
    using that by (simp add: get_proxy_command_loud shlex_quote_safe)
  show ?thesis
    using ws_url_https [of r] ws_url_http [of r] ws_url_other [of u]
      get_proxy_command_loud [of b bin] get_proxy_command_quiet [of b bin]
      get_proxy_command_quiet_safe [of bin b] safe
    by blast
qed

theorem get_proxy_command_shape_witness:
  "\<not> startswith ''wss://already.example.com'' ''https://'' \<and>
   \<not> startswith ''wss://already.example.com'' ''http://'' \<and>
   ws_url_of ''wss://already.example.com'' = ''wss://already.example.com'' \<and>
   ''/tmp/rtunnel'' \<noteq> [] \<and> list_all shlex_safe_char ''/tmp/rtunnel'' \<and>
   ws_url_of (proxy_url (BridgeProfile_init ''test'' ''https://proxy.example.com/tunnel'')) \<noteq> [] \<and>
   list_all shlex_safe_char
     (ws_url_of (proxy_url (BridgeProfile_init ''test'' ''https://proxy.example.com/tunnel''))) \<and>
   get_proxy_command (BridgeProfile_init ''test'' ''https://proxy.example.com/tunnel'')
       ''/tmp/rtunnel'' False
     = ''/tmp/rtunnel wss://proxy.example.com/tunnel stdio://%h:%p'' \<and>
   get_proxy_command (BridgeProfile_init ''test'' ''https://proxy.example.com/tunnel'')
       ''/tmp/rtunnel'' True
     = ''sh -c '' @ [CHR 0x27]
       @ ''/tmp/rtunnel wss://proxy.example.com/tunnel stdio://%h:%p 2>/dev/null''
       @ [CHR 0x27]"
  using get_proxy_command_shape
    [of "''proxy.example.com/tunnel''" "''wss://already.example.com''"
        "BridgeProfile_init ''test'' ''https://proxy.example.com/tunnel''" "''/tmp/rtunnel''"]
  by (simp add: BridgeProfile_init_def startswith_def ws_url_of_def shlex_safe_char_def
      shlex_quote_def)

section \<open>Properties of the forge client's requests\<close>

lemma request_json_from_client_error:
  "urlopen a = HttpError code detail \<Longrightarrow> code < 500 \<Longrightarrow>
   request_json_from urlopen url a (Suc k) =
     (Inl (ForgeError (api_error_msg code url detail)), [Request a])"
  by simp

lemma request_json_from_server_error:
  "urlopen a = HttpError code detail \<Longrightarrow> 500 \<le> code \<Longrightarrow> a < max_retries \<Longrightarrow>
   request_json_from urlopen url a (Suc k) =
     (fst (request_json_from urlopen url (Suc a) k),
      Request a # Sleep retry_delay # snd (request_json_from urlopen url (Suc a) k))"
  by (simp add: case_prod_beta)

lemma request_json_from_last_error:
  "urlopen a = HttpError code detail \<Longrightarrow> \<not> a < max_retries \<Longrightarrow>
   request_json_from urlopen url a (Suc k) =
     (Inl (ForgeError (api_error_msg code url detail)), [Request a])"
  by simp

lemma request_json_from_ok:
  "urlopen a = HttpOk (JsonBody j) \<Longrightarrow>
   request_json_from urlopen url a (Suc k) = (Inr j, [Request a])"
  by simp





section \<open>Properties of waiting for a workflow run\<close>


lemma wait_loop_timeout_tick:
  "now > D \<Longrightarrow>
   wait_loop D rid t ((now, poll) # rest) = Some (Inl (TimeoutError (workflow_timeout_msg t)), 0)"
  by simp

lemma wait_loop_terminal_tick:
  "\<not> now > D \<Longrightarrow> is_terminal run \<Longrightarrow>
   wait_loop D rid t ((now, Inr run) # rest) = Some (Inr (completion_of rid run), 1)"
  by simp







section \<open>Properties of run correlation\<close>

lemma matches_inputs_iff: "matches_inputs inputs expected \<longleftrightarrow> inputs_agree inputs expected"
  by (induction expected) (auto simp: inputs_agree_def split: if_splits)


lemma find_run_by_inputs_Some:
  "find_run_by_inputs runs expected = Some run \<Longrightarrow>
   run \<in> set runs \<and> parse_event_inputs run \<noteq> [] \<and>
   inputs_agree (parse_event_inputs run) expected"
  by (induction runs) (auto simp: Let_def matches_inputs_iff split: if_splits)

lemma find_run_by_inputs_None:
  "find_run_by_inputs runs expected = None \<longleftrightarrow>
   (\<forall>run \<in> set runs. parse_event_inputs run = [] \<or>
      \<not> inputs_agree (parse_event_inputs run) expected)"
  by (induction runs) (auto simp: Let_def matches_inputs_iff)






lemma sync_round_single_page:
  assumes "get 1 = Inr respa" and "find_run_by_inputs (runs_of respa) expected = None"
    and "extract_total_count respa = None \<or> (\<exists>n. extract_total_count respa = Some n \<and> n \<le> 20)"
  shows "sync_round get expected = (NotFound, [1])"
  using assms by (auto simp: sync_round_def limit_def)





end
